theory Spec2Isabelle
  imports Main "HOL-Library.Word"
begin

unbundle bit_operations_syntax

section \<open>Shared data: errors, diagnostics, dynamically typed values\<close>

text \<open>
  Go's \<open>error\<close> values that the modelled functions create, inspect or pass on.
  \<open>AwsErr code message\<close> is an SDK error with an error code, \<open>ErrorsNew\<close> is
  \<open>errors.New\<close>, \<open>Wrapf prefix e\<close> is \<open>fmt.Errorf("prefix: %w", e)\<close>. The last four are
  the error structs of the plugin SDK's \<open>helper/resource\<close> package and of \<open>tfresource\<close>;
  their \<open>LastError\<close> field is the first argument.
\<close>

datatype goerr =
    ErrorsNew string
  | AwsErr string string
  | Wrapf string goerr
  | NotFoundError "goerr option"
  | EmptyResultError
  | UnexpectedStateError "goerr option" string "string list"
  | TimeoutError "goerr option" string nat "string list"

text \<open>\<open>tfawserr.ErrCodeEquals(err, code)\<close>: false on \<open>nil\<close>; otherwise the first SDK error in
  the wrap chain is compared by code.\<close>

fun awsCode :: "goerr \<Rightarrow> string option" where
  "awsCode (AwsErr c m) = Some c"
| "awsCode (Wrapf p e) = awsCode e"
| "awsCode (ErrorsNew s) = None"
| "awsCode (NotFoundError l) = None"
| "awsCode EmptyResultError = None"
| "awsCode (UnexpectedStateError l s t) = None"
| "awsCode (TimeoutError l s n t) = None"

fun ErrCodeEquals :: "goerr option \<Rightarrow> string \<Rightarrow> bool" where
  "ErrCodeEquals None c = False"
| "ErrCodeEquals (Some e) c = (awsCode e = Some c)"

text \<open>A value of Go's \<open>interface{}\<close> as the schema layer hands it over. Go strings are byte
  sequences.\<close>

type_synonym byte = "8 word"

datatype iface = INil | IString "byte list" | IInt int | IBool bool

section \<open>ACM certificate: \<open>isChangeNormalizeCertRemoval\<close> and \<open>stripCR\<close>\<close>

text \<open>
  \<open>stripCR\<close> allocates \<open>c\<close> of the length of \<open>b\<close>, copies every byte that is not
  \<open>'\r'\<close> (13) to \<open>c[i]\<close>, counting \<open>i\<close> up, and returns \<open>c[:i]\<close>.
\<close>

fun stripCR_loop :: "byte list \<Rightarrow> byte list \<Rightarrow> nat \<Rightarrow> byte list \<times> nat" where
  "stripCR_loop [] c i = (c, i)"
| "stripCR_loop (ch # rest) c i =
     (if ch \<noteq> 13 then stripCR_loop rest (c[i := ch]) (Suc i)
      else stripCR_loop rest c i)"

definition stripCR :: "byte list \<Rightarrow> byte list" where
  "stripCR b = (case stripCR_loop b (replicate (length b) 0) 0 of (c, i) \<Rightarrow> take i c)"

text \<open>
  \<open>hex.EncodeToString\<close> of the standard library: two bytes of output per input byte, looked
  up in the table \<open>"0123456789abcdef"\<close> by the high and the low nibble. Both indices are
  below 16, so the lookups are in range.
\<close>

definition hextable :: "byte list" where
  "hextable = [48, 49, 50, 51, 52, 53, 54, 55, 56, 57, 97, 98, 99, 100, 101, 102]"

fun EncodeToString :: "byte list \<Rightarrow> byte list" where
  "EncodeToString [] = []"
| "EncodeToString (v # vs) =
     hextable ! unat (drop_bit 4 v) # hextable ! unat (v AND 15) # EncodeToString vs"

text \<open>
  \<open>isChangeNormalizeCertRemoval\<close>. The two standard-library functions it calls,
  \<open>strings.TrimSpace\<close> and \<open>sha1.Sum\<close>, are the parameters \<open>TrimSpace\<close> and \<open>sha1_Sum\<close>.
  Each failed type assertion returns false.
\<close>

definition isChangeNormalizeCertRemoval ::
  "(byte list \<Rightarrow> byte list) \<Rightarrow> (byte list \<Rightarrow> byte list) \<Rightarrow> iface \<Rightarrow> iface \<Rightarrow> bool" where
  "isChangeNormalizeCertRemoval TrimSpace sha1_Sum oldRaw newRaw =
     (case oldRaw of
        IString old \<Rightarrow>
          (case newRaw of
             IString new \<Rightarrow>
               (let newCleanVal = sha1_Sum (stripCR (TrimSpace new))
                in EncodeToString newCleanVal = old)
           | _ \<Rightarrow> False)
      | _ \<Rightarrow> False)"

text \<open>The claim's words, for comparison: lowercase hexadecimal, two digits per byte, and
  removal of every carriage-return byte.\<close>

definition spec_hex_digit :: "nat \<Rightarrow> byte" where
  "spec_hex_digit n = (if n < 10 then of_nat (48 + n) else of_nat (87 + n))"

definition spec_lower_hex :: "byte list \<Rightarrow> byte list" where
  "spec_lower_hex bs =
     concat (map (\<lambda>b. [spec_hex_digit (unat b div 16), spec_hex_digit (unat b mod 16)]) bs)"

definition spec_remove_cr :: "byte list \<Rightarrow> byte list" where
  "spec_remove_cr bs = filter (\<lambda>b. b \<noteq> 13) bs"

section \<open>ECS task execution data source: \<open>dataSourceTaskExecutionRead\<close>\<close>

text \<open>\<open>strings.Join\<close>.\<close>

fun strings_Join :: "string list \<Rightarrow> string \<Rightarrow> string" where
  "strings_Join [] sep = []"
| "strings_Join [x] sep = x"
| "strings_Join (x # y # ys) sep = x @ sep @ strings_Join (y # ys) sep"

text \<open>
  A diagnostic appended by \<open>create.AppendDiagError\<close>: the service, the action, the resource
  name, the identifier read from \<open>d.Id()\<close> at that moment, and the cause. \<open>DiagErrorf\<close> is the one
  appended by \<open>sdkdiag.AppendErrorf\<close>: the format string and its two arguments, the
  identifier and the error.
\<close>

datatype diag = DiagError string string string string goerr | DiagErrorf string string goerr

definition DSNameTaskExecution :: string where
  "DSNameTaskExecution = ''Task Execution Data Source''"

text \<open>
  Modelled from the spec: the constants \<open>create.ErrActionCreating\<close> and \<open>names.ECS\<close> are not
  under src/; they are the action and the service name that the diagnostic reports, the
  service as section 1 of the spec names it.
\<close>

definition ErrActionCreating :: string where
  "ErrActionCreating = ''creating''"

definition names_ECS :: string where
  "names_ECS = ''ECS''"

text \<open>
  What the read consumes: the two required attributes, the outcome of the two expansions
  that can fail (\<open>None\<close> when \<open>d.GetOk\<close> reports the attribute unset), and the answer of
  \<open>RunTask\<close>: an error, a \<open>nil\<close> output, or the ARNs of the started tasks. The remaining
  optional attributes only fill fields of the request and take no part in the control flow.
\<close>

record task_exec_env =
  cluster :: string
  task_definition :: string
  placement_constraints :: "(goerr + unit) option"
  placement_strategy :: "(goerr + unit) option"
  run_task :: "goerr + string list option"

text \<open>The resource data written by the read, and the order of its effects.\<close>

record task_exec_data =
  rd_id :: string
  rd_task_arns :: "string list option"

datatype ecs_event = EvSetId string | EvRunTask string string | EvSetTaskArns "string list"

fun is_EvSetId :: "ecs_event \<Rightarrow> bool" where
  "is_EvSetId (EvSetId s) = True"
| "is_EvSetId (EvRunTask c t) = False"
| "is_EvSetId (EvSetTaskArns a) = False"

fun is_EvRunTask :: "ecs_event \<Rightarrow> bool" where
  "is_EvRunTask (EvRunTask c t) = True"
| "is_EvRunTask (EvSetId s) = False"
| "is_EvRunTask (EvSetTaskArns a) = False"

definition dataSourceTaskExecutionRead ::
  "task_exec_env \<Rightarrow> task_exec_data \<Rightarrow> diag list \<times> task_exec_data \<times> ecs_event list" where
  "dataSourceTaskExecutionRead env d0 =
     (let diags = [];
          id = strings_Join [cluster env, task_definition env] '','';
          d = d0\<lparr>rd_id := id\<rparr>;
          ev = [EvSetId id]
      in case placement_constraints env of
           Some (Inl err) \<Rightarrow>
             (diags @ [DiagError names_ECS ErrActionCreating DSNameTaskExecution (rd_id d) err], d, ev)
         | _ \<Rightarrow>
      (case placement_strategy env of
           Some (Inl err) \<Rightarrow>
             (diags @ [DiagError names_ECS ErrActionCreating DSNameTaskExecution (rd_id d) err], d, ev)
         | _ \<Rightarrow>
      (let ev = ev @ [EvRunTask (cluster env) (task_definition env)]
       in case run_task env of
            Inl err \<Rightarrow>
              (diags @ [DiagError names_ECS ErrActionCreating DSNameTaskExecution (rd_id d) err], d, ev)
          | Inr None \<Rightarrow>
              (diags @ [DiagError names_ECS ErrActionCreating DSNameTaskExecution (rd_id d)
                          EmptyResultError], d, ev)
          | Inr (Some tasks) \<Rightarrow>
              (if length tasks = 0
               then (diags @ [DiagError names_ECS ErrActionCreating DSNameTaskExecution (rd_id d)
                          EmptyResultError], d, ev)
               else (diags, d\<lparr>rd_task_arns := Some tasks\<rparr>, ev @ [EvSetTaskArns tasks])))))"

section \<open>AppStream fleet: \<open>resourceFleetUpdate\<close> and \<open>resourceFleetDelete\<close>\<close>


text \<open>The SDK's error code constants.\<close>

definition ErrCodeResourceNotFoundException :: string where
  "ErrCodeResourceNotFoundException = ''ResourceNotFoundException''"

definition ErrCodeResourceInUseException :: string where
  "ErrCodeResourceInUseException = ''ResourceInUseException''"

text \<open>
  The resource data of one update: the identifier, which attributes the plan changes, and the
  planned values, read with the type the code asserts. The list-valued attributes have the
  type \<open>'l\<close>; the three \<open>expand\<close> functions that turn them into SDK structs only build
  values, and the request keeps the list.
\<close>

record 'l fleet_data =
  Id :: string
  HasChange :: "string \<Rightarrow> bool"
  GetString :: "string \<Rightarrow> string"
  GetInt :: "string \<Rightarrow> int"
  GetBool :: "string \<Rightarrow> bool"
  GetList :: "string \<Rightarrow> 'l"


record 'l UpdateFleetInput =
  Name :: string
  ComputeCapacity :: "'l option"
  Description :: "string option"
  DomainJoinInfo :: "'l option"
  DisconnectTimeoutInSeconds :: "int option"
  EnableDefaultInternetAccess :: "bool option"
  IdleDisconnectTimeoutInSeconds :: "int option"
  DisplayName :: "string option"
  ImageName :: "string option"
  ImageArn :: "string option"
  IamRoleArn :: "string option"
  StreamView :: "string option"
  InstanceType :: "string option"
  MaxSessionsPerInstance :: "int option"
  MaxUserDurationInSeconds :: "int option"
  VpcConfig :: "'l option"

text \<open>
  The remote side as one update or delete sees it: the error (\<open>None\<close> for \<open>nil\<close>) of each
  call the function can make, each made at most once, and the diagnostics of the final
  \<open>resourceFleetRead\<close>. \<open>waitFleetStateStopped\<close> and \<open>waitFleetStateRunning\<close> are waiters of
  the same package outside src/; only their error result is used.
\<close>

record fleet_conn =
  StopFleet :: "goerr option"
  waitFleetStateStopped :: "goerr option"
  UpdateFleet :: "goerr option"
  StartFleet :: "goerr option"
  waitFleetStateRunning :: "goerr option"
  DeleteFleet :: "goerr option"
  resourceFleetRead :: "diag list"

text \<open>The calls a function made, in order.\<close>

datatype 'l fleet_call =
    CallStopFleet string
  | CallWaitStopped string
  | CallUpdateFleet "'l UpdateFleetInput"
  | CallStartFleet string
  | CallWaitRunning string
  | CallDeleteFleet string
  | CallRead string






text \<open>\<open>resourceFleetDelete\<close>: stop, wait for the stop, delete; a fleet that is already gone
  ends the function with the empty diagnostics.\<close>

definition resourceFleetDelete ::
  "fleet_conn \<Rightarrow> 'l fleet_data \<Rightarrow> diag list \<times> 'l fleet_call list" where
  "resourceFleetDelete conn d =
     (let diags = [];
          calls0 = [CallStopFleet (Id d)]
      in if ErrCodeEquals (StopFleet conn) ErrCodeResourceNotFoundException then (diags, calls0)
         else case StopFleet conn of
           Some err \<Rightarrow>
             (diags @ [DiagErrorf ''stopping Appstream Fleet (%s): %s'' (Id d) err], calls0)
         | None \<Rightarrow>
             (let calls1 = calls0 @ [CallWaitStopped (Id d)]
              in case waitFleetStateStopped conn of
                   Some err \<Rightarrow>
                     (diags @ [DiagErrorf
                        ''waiting for Appstream Fleet (%s) to be stopped: %s'' (Id d) err], calls1)
                 | None \<Rightarrow>
                     (let calls2 = calls1 @ [CallDeleteFleet (Id d)]
                      in if ErrCodeEquals (DeleteFleet conn) ErrCodeResourceNotFoundException
                         then (diags, calls2)
                         else case DeleteFleet conn of
                           Some err \<Rightarrow>
                             (diags @ [DiagErrorf ''deleting Appstream Fleet (%s): %s'' (Id d) err],
                              calls2)
                         | None \<Rightarrow> (diags, calls2))))"


section \<open>ACM certificate: \<open>resourceCertificateDelete\<close>\<close>

text \<open>
  Modelled from the spec: \<open>tfresource.RetryWhenAWSErrCodeEquals\<close> is not under src/. After the
  spec's failure semantics for retries (retryable failures are retried up to the duration
  budget, on exhaustion the last retryable error is surfaced, any other outcome ends the
  retrying), the function is called again while its error carries the given code and the
  budget lasts. The budget is counted in retries, one per unit of the timeout; \<open>f k\<close> is the
  error (\<open>None\<close> for \<open>nil\<close>) of the call number \<open>k\<close>. Returned: the final error and the
  number of calls made so far.
\<close>

fun RetryWhenAWSErrCodeEquals ::
  "nat \<Rightarrow> (nat \<Rightarrow> goerr option) \<Rightarrow> string \<Rightarrow> nat \<Rightarrow> goerr option \<times> nat" where
  "RetryWhenAWSErrCodeEquals 0 f code k = (f k, Suc k)"
| "RetryWhenAWSErrCodeEquals (Suc timeout) f code k =
     (if ErrCodeEquals (f k) code then RetryWhenAWSErrCodeEquals timeout f code (Suc k)
      else (f k, Suc k))"

text \<open>\<open>20 * time.Minute\<close>, in minutes.\<close>

definition AcmCertificateCrossServicePropagationTimeout :: nat where
  "AcmCertificateCrossServicePropagationTimeout = 20"

text \<open>\<open>resourceCertificateDelete\<close>, given the outcomes of the successive \<open>DeleteCertificate\<close>
  calls and \<open>d.Id()\<close>: the error returned and the number of calls made.\<close>

definition resourceCertificateDelete ::
  "(nat \<Rightarrow> goerr option) \<Rightarrow> string \<Rightarrow> goerr option \<times> nat" where
  "resourceCertificateDelete DeleteCertificate ident =
     (case RetryWhenAWSErrCodeEquals AcmCertificateCrossServicePropagationTimeout
             DeleteCertificate ErrCodeResourceInUseException 0 of
        (err, n) \<Rightarrow>
          if ErrCodeEquals err ErrCodeResourceNotFoundException then (None, n)
          else case err of
                 Some e \<Rightarrow> (Some (Wrapf (''deleting ACM Certificate ('' @ ident @ '')'') e), n)
               | None \<Rightarrow> (None, n))"

section \<open>ACM certificate: \<open>waitCertificateIssued\<close>\<close>

text \<open>\<open>aws.StringValue\<close>: the string behind the pointer, empty for \<open>nil\<close>.\<close>

fun StringValue :: "string option \<Rightarrow> string" where
  "StringValue None = []"
| "StringValue (Some s) = s"

text \<open>The fields of the SDK's certificate description that the waiter reads.\<close>

record CertificateDetail =
  CertificateArn :: "string option"
  Status :: "string option"
  FailureReason :: "string option"
  RevocationReason :: "string option"

record DescribeCertificateOutput =
  Certificate :: "CertificateDetail option"

text \<open>The SDK's certificate status constants.\<close>

definition CertificateStatusPendingValidation :: string where
  "CertificateStatusPendingValidation = ''PENDING_VALIDATION''"
definition CertificateStatusIssued :: string where
  "CertificateStatusIssued = ''ISSUED''"
definition CertificateStatusFailed :: string where
  "CertificateStatusFailed = ''FAILED''"
definition CertificateStatusRevoked :: string where
  "CertificateStatusRevoked = ''REVOKED''"

text \<open>\<open>findCertificate\<close>, applied to the answer of \<open>DescribeCertificate\<close>: either an error or
  the certificate, as each of its four \<open>return\<close>s has it.\<close>

definition findCertificate ::
  "DescribeCertificateOutput option \<times> goerr option \<Rightarrow> goerr + CertificateDetail" where
  "findCertificate resp =
     (case resp of
        (output, err) \<Rightarrow>
          if ErrCodeEquals err ErrCodeResourceNotFoundException then Inl (NotFoundError err)
          else case err of
                 Some e \<Rightarrow> Inl e
               | None \<Rightarrow>
                   (case output of
                      None \<Rightarrow> Inl EmptyResultError
                    | Some out \<Rightarrow>
                        (case Certificate out of
                           None \<Rightarrow> Inl EmptyResultError
                         | Some c \<Rightarrow> Inr c)))"

text \<open>
  Modelled from the spec: \<open>tfresource.NotFound\<close> is not under src/. In the spec's error taxonomy
  an absent resource is reported by a not-found error; the function recognises the not-found
  error and the empty-result error, also inside a wrapped error.
\<close>

fun NotFound :: "goerr \<Rightarrow> bool" where
  "NotFound (NotFoundError l) = True"
| "NotFound EmptyResultError = True"
| "NotFound (Wrapf p e) = NotFound e"
| "NotFound (ErrorsNew s) = False"
| "NotFound (AwsErr c m) = False"
| "NotFound (UnexpectedStateError l s t) = False"
| "NotFound (TimeoutError l s n t) = False"

text \<open>\<open>statusCertificate\<close>: the refresh function of the waiter, at its call number \<open>k\<close>.\<close>

definition statusCertificate ::
  "(nat \<Rightarrow> DescribeCertificateOutput option \<times> goerr option) \<Rightarrow> nat \<Rightarrow>
     CertificateDetail option \<times> string \<times> goerr option" where
  "statusCertificate DescribeCertificate k =
     (case findCertificate (DescribeCertificate k) of
        Inl err \<Rightarrow> if NotFound err then (None, [], None) else (None, [], Some err)
      | Inr output \<Rightarrow> (Some output, StringValue (Status output), None))"

text \<open>
  Modelled from the spec: \<open>StateChangeConf\<close> and its \<open>WaitForState\<close> belong to the external
  plugin SDK, which the spec describes as a bounded polling loop. The loop refreshes until
  the refresh fails, the state is a target state, the state is neither pending nor target, the
  resource has been missing for more than \<open>NotFoundChecks\<close> refreshes in a row, or the timeout
  is used up. Time is counted in refreshes: \<open>Timeout conf\<close> of them fit before the timeout.
  Returned: the result and error of \<open>WaitForState\<close> and the number of refreshes made.
\<close>

record StateChangeConf =
  Pending :: "string list"
  Target :: "string list"
  Timeout :: nat

definition NotFoundChecks :: nat where
  "NotFoundChecks = 20"

fun WaitForState_loop ::
  "StateChangeConf \<Rightarrow> (nat \<Rightarrow> 'r option \<times> string \<times> goerr option) \<Rightarrow> nat \<Rightarrow> nat \<Rightarrow> nat \<Rightarrow>
     string \<Rightarrow> ('r option \<times> goerr option) \<times> nat" where
  "WaitForState_loop conf Refresh 0 k notfoundTick lastState =
     ((None, Some (TimeoutError None lastState (Timeout conf) (Target conf))), k)"
| "WaitForState_loop conf Refresh (Suc rounds) k notfoundTick lastState =
     (case Refresh k of
        (res, currentState, err) \<Rightarrow>
          (case err of
             Some e \<Rightarrow> ((res, Some e), Suc k)
           | None \<Rightarrow>
               (case res of
                  None \<Rightarrow>
                    if Target conf = [] then ((None, None), Suc k)
                    else if Suc notfoundTick > NotFoundChecks
                    then ((None, Some (NotFoundError None)), Suc k)
                    else WaitForState_loop conf Refresh rounds (Suc k) (Suc notfoundTick)
                           currentState
                | Some r \<Rightarrow>
                    if currentState \<in> set (Target conf) then ((Some r, None), Suc k)
                    else if currentState \<in> set (Pending conf)
                    then WaitForState_loop conf Refresh rounds (Suc k) 0 currentState
                    else if Pending conf \<noteq> []
                    then ((Some r, Some (UnexpectedStateError None currentState (Target conf))),
                          Suc k)
                    else WaitForState_loop conf Refresh rounds (Suc k) 0 currentState)))"

definition WaitForState ::
  "StateChangeConf \<Rightarrow> (nat \<Rightarrow> 'r option \<times> string \<times> goerr option) \<Rightarrow>
     ('r option \<times> goerr option) \<times> nat" where
  "WaitForState conf Refresh = WaitForState_loop conf Refresh (Timeout conf) 0 0 []"

text \<open>
  Modelled from the spec: \<open>tfresource.SetLastError\<close> is not under src/. After the spec's
  "timeout wrapper around the last error", it stores the given error in the \<open>LastError\<close> field
  of a timeout or unexpected-state error whose field is still empty and leaves every other
  error as it is. The source's in-place update of the error is the returned error here.
\<close>

fun SetLastError :: "goerr option \<Rightarrow> goerr \<Rightarrow> goerr option" where
  "SetLastError (Some (TimeoutError None s n t)) lastErr = Some (TimeoutError (Some lastErr) s n t)"
| "SetLastError (Some (UnexpectedStateError None s t)) lastErr =
     Some (UnexpectedStateError (Some lastErr) s t)"
| "SetLastError err lastErr = err"

text \<open>\<open>waitCertificateIssued\<close>, given the answers of the successive \<open>DescribeCertificate\<close>
  calls: the certificate and error returned, and the number of polls made.\<close>

definition waitCertificateIssued ::
  "(nat \<Rightarrow> DescribeCertificateOutput option \<times> goerr option) \<Rightarrow> nat \<Rightarrow>
     (CertificateDetail option \<times> goerr option) \<times> nat" where
  "waitCertificateIssued DescribeCertificate timeout =
     (let stateConf = \<lparr>Pending = [CertificateStatusPendingValidation],
                       Target = [CertificateStatusIssued],
                       Timeout = timeout\<rparr>
      in case WaitForState stateConf (statusCertificate DescribeCertificate) of
           ((outputRaw, err), polls) \<Rightarrow>
             (case outputRaw of
                Some output \<Rightarrow>
                  (if StringValue (Status output) = CertificateStatusFailed
                   then ((Some output,
                          SetLastError err (ErrorsNew (StringValue (FailureReason output)))), polls)
                   else if StringValue (Status output) = CertificateStatusRevoked
                   then ((Some output,
                          SetLastError err (ErrorsNew (StringValue (RevocationReason output)))),
                         polls)
                   else ((Some output, err), polls))
              | None \<Rightarrow> ((None, err), polls)))"

section \<open>WAF change tokens: \<open>RetryWithToken\<close>\<close>

text \<open>
  Modelled from the spec: \<open>NewRetryer\<close> and \<open>RetryWithToken\<close> of package \<open>waf\<close> are not under
  src/, which holds only their callers in the acceptance tests. The definitions of this
  section follow sections 3, 4.1 and 7 of the spec. A change token is an opaque string.
\<close>

type_synonym token = string

text \<open>
  Modelled from the spec: the retry policy of section 3: the maximum wall-clock duration,
  the backoff schedule (the delay after the attempt number \<open>k\<close>), and the classification of
  errors as retryable or fatal.
\<close>

record RetryPolicy =
  budget :: nat
  delay :: "nat \<Rightarrow> nat"
  retryable :: "goerr \<Rightarrow> bool"

text \<open>
  Modelled from the spec: the external collaborators of section 6. \<open>FetchChangeToken w k\<close> is
  the answer to the fetch number \<open>k\<close>, \<open>operation w j t\<close> the outcome of the invocation number
  \<open>j\<close> of the caller's operation with the token \<open>t\<close>, and \<open>canceled_at w\<close> the instant at which
  the context is canceled, if it ever is. Both calls are network calls that may block
  (section 5): \<open>fetch_time w k\<close> and \<open>op_time w j\<close> are the wall-clock durations of the fetch
  number \<open>k\<close> and of the invocation number \<open>j\<close>.
\<close>

record 'r remote =
  FetchChangeToken :: "nat \<Rightarrow> goerr + token"
  operation :: "nat \<Rightarrow> token \<Rightarrow> goerr + 'r"
  canceled_at :: "nat option"
  fetch_time :: "nat \<Rightarrow> nat"
  op_time :: "nat \<Rightarrow> nat"

text \<open>
  Modelled from the spec: the terminal states of section 4.1: success with the result, a fatal
  cause, a timeout wrapping the last retryable error, and cancellation.
\<close>

datatype 'r outcome = Success 'r | Fatal goerr | TimedOut goerr | Canceled

text \<open>
  Modelled from the spec: the side effects of a run in their order (a token fetch with its
  answer, an invocation with the token passed, a completed wait with its delay), and the
  state of a run: the wall clock, which starts at 0 when \<open>RetryWithToken\<close> is called, the two
  call counters and the log of effects. The state holds no token.
\<close>

datatype event = Fetched nat "goerr + token" | Invoked nat token | Waited nat nat

record retry_state =
  now :: nat
  fetches :: nat
  invocations :: nat
  trace :: "event list"

text \<open>
  Modelled from the spec: the wait between attempts (step 4 of section 4.1, section 5). The
  wait after the attempt \<open>k\<close> would last until \<open>now + delay k\<close>. A cancellation that falls before
  that instant and not after the budget ends the run with \<open>Canceled\<close> at the instant of the
  cancellation (at once, if the context is canceled already). Otherwise a wait that would pass
  the budget ends the run with \<open>TimedOut\<close> around the error that caused the wait, at the instant
  the budget ends, or at once if the calls of the attempt have used the budget up already.
  Otherwise the run goes on after the delay.
\<close>

definition backoff ::
  "RetryPolicy \<Rightarrow> 'r remote \<Rightarrow> nat \<Rightarrow> retry_state \<Rightarrow> goerr \<Rightarrow>
     ('r outcome \<times> retry_state) + retry_state" where
  "backoff pol w k s e =
     (let until = now s + delay pol k;
          proceed =
            (if budget pol < until then Inl (TimedOut e, s\<lparr>now := max (now s) (budget pol)\<rparr>)
             else Inr (s\<lparr>now := until, trace := trace s @ [Waited k (delay pol k)]\<rparr>))
      in case canceled_at w of
           Some c \<Rightarrow>
             if c \<le> until \<and> c \<le> budget pol then Inl (Canceled, s\<lparr>now := max (now s) c\<rparr>)
             else proceed
         | None \<Rightarrow> proceed)"

text \<open>
  Modelled from the spec: the loop of section 4.1, steps 1 to 5. Each attempt fetches a token;
  a fetch error is fatal unless it is classified retryable, in which case the same backoff
  applies; the operation is invoked with the token just fetched; success returns the result,
  a retryable error waits and starts the next attempt, any other error is returned as fatal.
  The clock advances by the duration of each fetch and of each invocation, and by the delay
  of each completed wait. The first argument bounds the number of attempts a run of the model
  makes; \<open>None\<close> as outcome says that the run is not over after that many attempts.
\<close>

fun retry_loop ::
  "nat \<Rightarrow> RetryPolicy \<Rightarrow> 'r remote \<Rightarrow> retry_state \<Rightarrow> 'r outcome option \<times> retry_state" where
  "retry_loop 0 pol w s = (None, s)"
| "retry_loop (Suc fuel) pol w s =
     (let k = fetches s;
          s1 = s\<lparr>now := now s + fetch_time w k, fetches := Suc k,
                 trace := trace s @ [Fetched k (FetchChangeToken w k)]\<rparr>
      in case FetchChangeToken w k of
           Inl e \<Rightarrow>
             if retryable pol e then
               (case backoff pol w k s1 e of
                  Inl (out, s') \<Rightarrow> (Some out, s')
                | Inr s' \<Rightarrow> retry_loop fuel pol w s')
             else (Some (Fatal e), s1)
         | Inr tok \<Rightarrow>
             (let j = invocations s1;
                  s2 = s1\<lparr>now := now s1 + op_time w j, invocations := Suc j,
                          trace := trace s1 @ [Invoked j tok]\<rparr>
              in case operation w j tok of
                   Inr result \<Rightarrow> (Some (Success result), s2)
                 | Inl e \<Rightarrow>
                     if retryable pol e then
                       (case backoff pol w k s2 e of
                          Inl (out, s') \<Rightarrow> (Some out, s')
                        | Inr s' \<Rightarrow> retry_loop fuel pol w s')
                     else (Some (Fatal e), s2)))"

text \<open>Modelled from the spec: \<open>RetryWithToken\<close>, the loop from the initial state.\<close>

definition RetryWithToken ::
  "nat \<Rightarrow> RetryPolicy \<Rightarrow> 'r remote \<Rightarrow> 'r outcome option \<times> retry_state" where
  "RetryWithToken fuel pol w =
     retry_loop fuel pol w \<lparr>now = 0, fetches = 0, invocations = 0, trace = []\<rparr>"

text \<open>The time spent in the \<open>n\<close> waits that follow the attempts \<open>k\<close>, ..., \<open>k + n - 1\<close>.\<close>

fun total_delay :: "RetryPolicy \<Rightarrow> nat \<Rightarrow> nat \<Rightarrow> nat" where
  "total_delay pol k 0 = 0"
| "total_delay pol k (Suc n) = delay pol k + total_delay pol (Suc k) n"

text \<open>
  The wall-clock time that the \<open>n\<close> attempts \<open>k\<close>, ..., \<open>k + n - 1\<close> take together with the waits
  that follow them, when each of them fetches a token and invokes the operation: the
  duration of the fetch, of the invocation and of the wait, for each attempt.
\<close>

fun total_elapsed :: "RetryPolicy \<Rightarrow> 'r remote \<Rightarrow> nat \<Rightarrow> nat \<Rightarrow> nat" where
  "total_elapsed pol w k 0 = 0"
| "total_elapsed pol w k (Suc n) =
     fetch_time w k + op_time w k + delay pol k + total_elapsed pol w (Suc k) n"

text \<open>
  The token discipline of section 3, read off the log of effects. \<open>h\<close> is the token held and
  not yet used. A fetch needs no token to be held and makes its token the held one; an
  invocation needs its token to be the held one and gives it up; a wait needs no token to be
  held. \<open>None\<close> as result reports a violation.
\<close>

fun token_step :: "token option \<Rightarrow> event \<Rightarrow> token option option" where
  "token_step h (Fetched k (Inr t)) = (if h = None then Some (Some t) else None)"
| "token_step h (Fetched k (Inl e)) = (if h = None then Some None else None)"
| "token_step h (Invoked j t) = (if h = Some t then Some None else None)"
| "token_step h (Waited k d) = (if h = None then Some None else None)"

fun token_run :: "token option \<Rightarrow> event list \<Rightarrow> token option option" where
  "token_run h [] = Some h"
| "token_run h (e # es) = (case token_step h e of None \<Rightarrow> None | Some h' \<Rightarrow> token_run h' es)"

section \<open>Concrete scenarios\<close>


definition ex_fleet :: "unit fleet_data" where
  "ex_fleet = \<lparr>Id = ''fleet-1'', HasChange = (\<lambda>k. k = ''instance_type''),
     GetString = (\<lambda>k. ''stream.standard.large''), GetInt = (\<lambda>k. 0), GetBool = (\<lambda>k. False),
     GetList = (\<lambda>k. ())\<rparr>"


text \<open>A certificate that is still referenced at the first \<open>DeleteCertificate\<close> call and free at
  the second.\<close>

definition in_use_once :: "nat \<Rightarrow> goerr option" where
  "in_use_once k =
     (if k = 0 then Some (AwsErr ''ResourceInUseException'' ''certificate is in use'') else None)"

text \<open>A fleet that is already gone when the delete stops it, and a certificate that is
  referenced at the first \<open>DeleteCertificate\<close> call and gone at the second.\<close>

definition gone_conn :: fleet_conn where
  "gone_conn = \<lparr>StopFleet = Some (AwsErr ''ResourceNotFoundException'' ''no such fleet''),
     waitFleetStateStopped = None, UpdateFleet = None, StartFleet = None,
     waitFleetStateRunning = None, DeleteFleet = None, resourceFleetRead = []\<rparr>"

definition in_use_then_gone :: "nat \<Rightarrow> goerr option" where
  "in_use_then_gone k =
     (if k = 0 then Some (AwsErr ''ResourceInUseException'' ''certificate is in use'')
      else Some (AwsErr ''ResourceNotFoundException'' ''no such certificate''))"

text \<open>A certificate that is pending at two polls and failed at the third.\<close>

definition failed_cert :: CertificateDetail where
  "failed_cert = \<lparr>CertificateArn = Some ''arn:cert'', Status = Some ''FAILED'',
     FailureReason = Some ''CAA_ERROR'', RevocationReason = None\<rparr>"

definition pending_cert :: CertificateDetail where
  "pending_cert = \<lparr>CertificateArn = Some ''arn:cert'', Status = Some ''PENDING_VALIDATION'',
     FailureReason = None, RevocationReason = None\<rparr>"

definition pending_then_failed ::
  "nat \<Rightarrow> DescribeCertificateOutput option \<times> goerr option" where
  "pending_then_failed k =
     (if k < 2 then (Some \<lparr>Certificate = Some pending_cert\<rparr>, None)
      else (Some \<lparr>Certificate = Some failed_cert\<rparr>, None))"

text \<open>
  A policy with a budget of 5 and a constant delay of 2 that retries stale-token errors, and
  four remote sides whose calls take no time: the operation is stale twice and then succeeds;
  it is denied at once; it is stale for ever; it is stale for ever and the context is
  canceled at the instant 3.
\<close>

definition stale_policy :: RetryPolicy where
  "stale_policy = \<lparr>budget = 5, delay = (\<lambda>k. 2),
     retryable = (\<lambda>e. awsCode e = Some ''WAFStaleDataException'')\<rparr>"

definition issue_token :: "nat \<Rightarrow> token" where
  "issue_token k = replicate (Suc k) CHR ''t''"

definition stale_err :: "nat \<Rightarrow> goerr" where
  "stale_err k = AwsErr ''WAFStaleDataException'' ''stale token''"

definition stale_twice :: "string remote" where
  "stale_twice = \<lparr>FetchChangeToken = (\<lambda>k. Inr (issue_token k)),
     operation = (\<lambda>j t. if j < 2 then Inl (stale_err j) else Inr t),
     canceled_at = None, fetch_time = (\<lambda>k. 0), op_time = (\<lambda>j. 0)\<rparr>"

definition denied :: "string remote" where
  "denied = \<lparr>FetchChangeToken = (\<lambda>k. Inr (issue_token k)),
     operation = (\<lambda>j t. Inl (AwsErr ''WAFInvalidAccountException'' ''permission denied'')),
     canceled_at = None, fetch_time = (\<lambda>k. 0), op_time = (\<lambda>j. 0)\<rparr>"

definition always_stale :: "string remote" where
  "always_stale = \<lparr>FetchChangeToken = (\<lambda>k. Inr (issue_token k)),
     operation = (\<lambda>j t. Inl (stale_err j)),
     canceled_at = None, fetch_time = (\<lambda>k. 0), op_time = (\<lambda>j. 0)\<rparr>"


text \<open>
  A policy with a budget of 5 that retries stale-token errors without any delay, and a remote
  side where the operation is stale for ever, each fetch takes 1 and each invocation 2: the
  budget is used up in the calls.
\<close>

definition eager_policy :: RetryPolicy where
  "eager_policy = \<lparr>budget = 5, delay = (\<lambda>k. 0),
     retryable = (\<lambda>e. awsCode e = Some ''WAFStaleDataException'')\<rparr>"

definition slow_stale :: "string remote" where
  "slow_stale = \<lparr>FetchChangeToken = (\<lambda>k. Inr (issue_token k)),
     operation = (\<lambda>j t. Inl (stale_err j)),
     canceled_at = None, fetch_time = (\<lambda>k. 1), op_time = (\<lambda>j. 2)\<rparr>"

section \<open>Theorems\<close>

subsection \<open>\<open>stripCR\<close> and the hexadecimal encoding\<close>

lemma stripCR_loop_filter:
  "i + length (filter (\<lambda>x. x \<noteq> 13) b) \<le> length c \<Longrightarrow>
   (case stripCR_loop b c i of (c', i') \<Rightarrow> take i' c' = take i c @ filter (\<lambda>x. x \<noteq> 13) b)"
proof (induction b arbitrary: c i)
  case Nil
  then show ?case by simp
next
  case (Cons ch rest)
  show ?case
  proof (cases "ch = 13")
    case True
    with Cons show ?thesis by simp
  next
    case False
    from Cons.prems False have len: "Suc i + length (filter (\<lambda>x. x \<noteq> 13) rest) \<le> length c"
      by simp
    then have "i < length c" by simp
    then have step: "take (Suc i) (c[i := ch]) = take i c @ [ch]"
      by (simp add: take_Suc_conv_app_nth)
    from len have "Suc i + length (filter (\<lambda>x. x \<noteq> 13) rest) \<le> length (c[i := ch])"
      by simp
    from Cons.IH [OF this] step False show ?thesis
      by (simp split: prod.splits)
  qed
qed

lemma stripCR_filter: "stripCR b = filter (\<lambda>x. x \<noteq> 13) b"
proof -
  have "0 + length (filter (\<lambda>x. x \<noteq> 13) b) \<le> length (replicate (length b) (0::byte))"
    by simp
  from stripCR_loop_filter [OF this] show ?thesis
    by (simp add: stripCR_def split: prod.splits)
qed

lemma hextable_nth: "n < 16 \<Longrightarrow> hextable ! n = spec_hex_digit n"
proof -
  assume "n < 16"
  then have "n \<in> {0, 1, 2, 3, 4, 5, 6, 7, 8, 9, 10, 11, 12, 13, 14, 15}"
    by (simp; arith)
  then show ?thesis
    by (auto simp: hextable_def spec_hex_digit_def)
qed

lemma high_nibble: "unat (drop_bit 4 (v :: byte)) = unat v div 16"
  using unat_drop_bit_eq [of 4 v] by (simp only: drop_bit_eq_div) simp

lemma low_nibble: "unat ((v :: byte) AND 15) = unat v mod 16"
proof -
  have "(v AND 15) = take_bit 4 v"
    by (simp add: take_bit_eq_mask mask_eq_exp_minus_1)
  then have "unat (v AND 15) = unat (take_bit 4 v)" by (simp only:)
  also have "\<dots> = take_bit 4 (unat v)" by (simp only: unsigned_take_bit_eq)
  also have "\<dots> = unat v mod 16" by (simp only: take_bit_eq_mod) simp
  finally show ?thesis .
qed

lemma EncodeToString_spec: "EncodeToString bs = spec_lower_hex bs"
proof (induction bs)
  case Nil
  then show ?case by (simp add: spec_lower_hex_def)
next
  case (Cons v vs)
  have hi: "unat v div 16 < 16"
    using unsigned_less [of v, where 'a = nat] by (simp add: less_mult_imp_div_less)
  have lo: "unat v mod 16 < 16" by simp
  from Cons hi lo show ?case
    by (simp add: spec_lower_hex_def high_nibble low_nibble hextable_nth)
qed

text \<open>Both functions evaluated on concrete bytes: \<open>"a\\rb\\r\\n"\<close> and \<open>"deadbeef"\<close>.\<close>

lemma stripCR_example: "stripCR [97, 13, 98, 13, 10] = [97, 98, 10]"
  by code_simp

lemma EncodeToString_example:
  "EncodeToString [222, 173, 190, 239] = [100, 101, 97, 100, 98, 101, 101, 102]"
  by code_simp

text \<open>
  C8. \<open>isChangeNormalizeCertRemoval\<close> is true exactly when both arguments are strings and the
  old one is the lowercase hexadecimal encoding of the SHA-1 digest of the new one after
  trimming surrounding whitespace and then removing every carriage-return byte; it is false
  as soon as one argument is not a string.
\<close>

theorem isChangeNormalizeCertRemoval_iff:
  "isChangeNormalizeCertRemoval TrimSpace sha1_Sum oldRaw newRaw =
     (\<exists>old new. oldRaw = IString old \<and> newRaw = IString new \<and>
        old = spec_lower_hex (sha1_Sum (spec_remove_cr (TrimSpace new))))"
  by (cases oldRaw; cases newRaw)
     (auto simp: isChangeNormalizeCertRemoval_def EncodeToString_spec stripCR_filter
        spec_remove_cr_def)

text \<open>With the identity for both library functions: \<open>"6162"\<close> is the encoding of \<open>"ab"\<close>, which
  is \<open>"a\\rb"\<close> without its carriage return.\<close>

theorem isChangeNormalizeCertRemoval_iff_witness:
  "isChangeNormalizeCertRemoval (\<lambda>b. b) (\<lambda>b. b) (IString [54, 49, 54, 50]) (IString [97, 13, 98]) \<and>
   \<not> isChangeNormalizeCertRemoval (\<lambda>b. b) (\<lambda>b. b) (IString [54, 49, 54, 50]) (IString [97, 99]) \<and>
   \<not> isChangeNormalizeCertRemoval (\<lambda>b. b) (\<lambda>b. b) (IInt 1) (IString [97, 98]) \<and>
   \<not> isChangeNormalizeCertRemoval (\<lambda>b. b) (\<lambda>b. b) (IString [54, 49, 54, 50]) INil"
  by (simp add: isChangeNormalizeCertRemoval_iff spec_lower_hex_def spec_hex_digit_def
        spec_remove_cr_def)

subsection \<open>The identifier of the task execution data source\<close>

text \<open>
  C10. Every read sets the identifier to the cluster name, one comma, and the task definition
  name; this is the first effect of the read, so it precedes the \<open>RunTask\<close> call, it is never
  set again, and the identifier has this form in every outcome (expansion error, \<open>RunTask\<close>
  error, empty task list, success).
\<close>

theorem dataSourceTaskExecutionRead_id:
  "case dataSourceTaskExecutionRead env d0 of
     (diags, d, evs) \<Rightarrow>
        rd_id d = cluster env @ '','' @ task_definition env \<and>
        (\<exists>rest. evs = EvSetId (cluster env @ '','' @ task_definition env) # rest \<and>
           (\<forall>e \<in> set rest. \<not> is_EvSetId e) \<and>
           (\<forall>e \<in> set evs. is_EvRunTask e \<longrightarrow> e \<in> set rest))"
  by (auto simp: dataSourceTaskExecutionRead_def Let_def
        split: option.splits sum.splits)

theorem dataSourceTaskExecutionRead_id_witness:
  "case dataSourceTaskExecutionRead
          \<lparr>cluster = ''c1'', task_definition = ''td'', placement_constraints = None,
           placement_strategy = None, run_task = Inl (AwsErr ''ClusterNotFoundException'' ''x'')\<rparr>
          \<lparr>rd_id = '''', rd_task_arns = None\<rparr> of
     (diags, d, evs) \<Rightarrow>
        rd_id d = ''c1,td'' \<and> evs = [EvSetId ''c1,td'', EvRunTask ''c1'' ''td''] \<and>
        diags = [DiagError ''ECS'' ''creating'' ''Task Execution Data Source'' ''c1,td''
                   (AwsErr ''ClusterNotFoundException'' ''x'')]"
  using dataSourceTaskExecutionRead_id
    [of "\<lparr>cluster = ''c1'', task_definition = ''td'', placement_constraints = None,
           placement_strategy = None, run_task = Inl (AwsErr ''ClusterNotFoundException'' ''x'')\<rparr>"
        "\<lparr>rd_id = '''', rd_task_arns = None\<rparr>"]
  by (simp add: dataSourceTaskExecutionRead_def ErrActionCreating_def DSNameTaskExecution_def
        names_ECS_def Let_def)

subsection \<open>Stopping and starting the fleet around an update\<close>




subsection \<open>Deleting a resource that is already gone\<close>

lemma RetryWhen_final:
  "\<forall>i<n. ErrCodeEquals (f (k + i)) code \<Longrightarrow> n \<le> timeout \<Longrightarrow>
   \<not> ErrCodeEquals (f (k + n)) code \<or> n = timeout \<Longrightarrow>
   RetryWhenAWSErrCodeEquals timeout f code k = (f (k + n), Suc (k + n))"
proof (induction timeout f code k arbitrary: n rule: RetryWhenAWSErrCodeEquals.induct)
  case (1 f code k)
  then show ?case by simp
next
  case (2 timeout f code k)
  show ?case
  proof (cases n)
    case 0
    with 2 show ?thesis by simp
  next
    case (Suc m)
    with "2.prems" have hd: "ErrCodeEquals (f k) code" by force
    from "2.prems" Suc have a: "\<forall>i<m. ErrCodeEquals (f (Suc k + i)) code" by force
    from "2.prems" Suc have b: "m \<le> timeout" by simp
    from "2.prems" Suc have c: "\<not> ErrCodeEquals (f (Suc k + m)) code \<or> m = timeout" by simp
    from "2.IH" [OF hd a b c] hd Suc show ?thesis by simp
  qed
qed

text \<open>
  C9, as amended. \<open>resourceFleetDelete\<close> returns the empty diagnostics when \<open>StopFleet\<close> or
  \<open>DeleteFleet\<close> fails with ResourceNotFoundException and reports every other error of these
  two calls. \<open>resourceCertificateDelete\<close> repeats \<open>DeleteCertificate\<close> while it fails with
  ResourceInUseException and the propagation timeout lasts; the outcome of the last call
  decides: ResourceNotFoundException and success give \<open>nil\<close>, every other error is returned
  wrapped, also ResourceInUseException once the timeout is used up.
\<close>

theorem delete_missing_resource:
  "(case resourceFleetDelete conn d of
      (diags, calls) \<Rightarrow>
        (ErrCodeEquals (StopFleet conn) ErrCodeResourceNotFoundException \<longrightarrow> diags = []) \<and>
        (\<forall>e. StopFleet conn = Some e \<and>
              \<not> ErrCodeEquals (StopFleet conn) ErrCodeResourceNotFoundException \<longrightarrow>
           diags = [DiagErrorf ''stopping Appstream Fleet (%s): %s'' (Id d) e]) \<and>
        (StopFleet conn = None \<and> waitFleetStateStopped conn = None \<longrightarrow>
           (ErrCodeEquals (DeleteFleet conn) ErrCodeResourceNotFoundException \<longrightarrow> diags = []) \<and>
           (\<forall>e. DeleteFleet conn = Some e \<and>
                 \<not> ErrCodeEquals (DeleteFleet conn) ErrCodeResourceNotFoundException \<longrightarrow>
              diags = [DiagErrorf ''deleting Appstream Fleet (%s): %s'' (Id d) e]))) \<and>
   ((\<forall>i<n. ErrCodeEquals (DeleteCertificate i) ErrCodeResourceInUseException) \<and>
    n \<le> AcmCertificateCrossServicePropagationTimeout \<and>
    (\<not> ErrCodeEquals (DeleteCertificate n) ErrCodeResourceInUseException \<or>
     n = AcmCertificateCrossServicePropagationTimeout) \<longrightarrow>
    resourceCertificateDelete DeleteCertificate ident =
      (if ErrCodeEquals (DeleteCertificate n) ErrCodeResourceNotFoundException then None
       else case DeleteCertificate n of
              None \<Rightarrow> None
            | Some e \<Rightarrow> Some (Wrapf (''deleting ACM Certificate ('' @ ident @ '')'') e),
       Suc n))"
proof (intro conjI impI)
  show "case resourceFleetDelete conn d of
      (diags, calls) \<Rightarrow>
        (ErrCodeEquals (StopFleet conn) ErrCodeResourceNotFoundException \<longrightarrow> diags = []) \<and>
        (\<forall>e. StopFleet conn = Some e \<and>
              \<not> ErrCodeEquals (StopFleet conn) ErrCodeResourceNotFoundException \<longrightarrow>
           diags = [DiagErrorf ''stopping Appstream Fleet (%s): %s'' (Id d) e]) \<and>
        (StopFleet conn = None \<and> waitFleetStateStopped conn = None \<longrightarrow>
           (ErrCodeEquals (DeleteFleet conn) ErrCodeResourceNotFoundException \<longrightarrow> diags = []) \<and>
           (\<forall>e. DeleteFleet conn = Some e \<and>
                 \<not> ErrCodeEquals (DeleteFleet conn) ErrCodeResourceNotFoundException \<longrightarrow>
              diags = [DiagErrorf ''deleting Appstream Fleet (%s): %s'' (Id d) e]))"
    by (auto simp: resourceFleetDelete_def Let_def split: option.splits)
next
  assume h: "(\<forall>i<n. ErrCodeEquals (DeleteCertificate i) ErrCodeResourceInUseException) \<and>
    n \<le> AcmCertificateCrossServicePropagationTimeout \<and>
    (\<not> ErrCodeEquals (DeleteCertificate n) ErrCodeResourceInUseException \<or>
     n = AcmCertificateCrossServicePropagationTimeout)"
  then have "RetryWhenAWSErrCodeEquals AcmCertificateCrossServicePropagationTimeout
      DeleteCertificate ErrCodeResourceInUseException 0 = (DeleteCertificate (0 + n), Suc (0 + n))"
    by (intro RetryWhen_final) auto
  then show "resourceCertificateDelete DeleteCertificate ident =
      (if ErrCodeEquals (DeleteCertificate n) ErrCodeResourceNotFoundException then None
       else case DeleteCertificate n of
              None \<Rightarrow> None
            | Some e \<Rightarrow> Some (Wrapf (''deleting ACM Certificate ('' @ ident @ '')'') e),
       Suc n)"
    by (simp add: resourceCertificateDelete_def split: option.splits)
qed

theorem delete_missing_resource_witness:
  "ErrCodeEquals (StopFleet gone_conn) ErrCodeResourceNotFoundException \<and>
   ErrCodeEquals (in_use_then_gone 0) ErrCodeResourceInUseException \<and>
   1 \<le> AcmCertificateCrossServicePropagationTimeout \<and>
   \<not> ErrCodeEquals (in_use_then_gone 1) ErrCodeResourceInUseException \<and>
   fst (resourceFleetDelete gone_conn ex_fleet) = [] \<and>
   resourceCertificateDelete in_use_then_gone ''arn:cert'' = (None, 2)"
  using delete_missing_resource
    [where conn = gone_conn and d = ex_fleet and n = 1 and DeleteCertificate = in_use_then_gone
       and ident = "''arn:cert''"]
  by (simp add: gone_conn_def in_use_then_gone_def ErrCodeResourceNotFoundException_def
        ErrCodeResourceInUseException_def AcmCertificateCrossServicePropagationTimeout_def
        split: prod.splits)

text \<open>
  C9 as stated fails: a ResourceInUseException of the first \<open>DeleteCertificate\<close> call is not
  a ResourceNotFoundException, and it is not propagated when the second call succeeds.
\<close>

theorem delete_in_use_counterexample:
  "in_use_once 0 = Some (AwsErr ''ResourceInUseException'' ''certificate is in use'') \<and>
   \<not> ErrCodeEquals (in_use_once 0) ErrCodeResourceNotFoundException \<and>
   resourceCertificateDelete in_use_once ''arn:cert'' = (None, 2)"
  by (simp add: resourceCertificateDelete_def in_use_once_def
        AcmCertificateCrossServicePropagationTimeout_def ErrCodeResourceInUseException_def
        ErrCodeResourceNotFoundException_def eval_nat_numeral)

subsection \<open>Waiting for a certificate to be issued\<close>

lemma WaitForState_loop_polls:
  "snd (WaitForState_loop conf Refresh rounds k nf ls) \<le> k + rounds"
proof (induction rounds arbitrary: k nf ls)
  case 0
  then show ?case by simp
next
  case (Suc rounds)
  have a: "snd (WaitForState_loop conf Refresh rounds (Suc k) nf' ls') \<le> Suc (k + rounds)"
    for nf' ls'
    using Suc [of "Suc k" nf' ls'] by simp
  show ?case
    by (auto split: prod.splits option.splits simp: a)
qed

lemma WaitForState_loop_pending:
  assumes "\<forall>i<n. \<exists>r st. Refresh (k + i) = (Some r, st, None) \<and> st \<in> set (Pending conf) \<and>
              st \<notin> set (Target conf)"
    and "Refresh (k + n) = (Some r, st, None)"
    and "st \<notin> set (Pending conf)"
    and "Pending conf \<noteq> []"
    and "n < rounds"
  shows "WaitForState_loop conf Refresh rounds k nf ls =
           ((Some r, if st \<in> set (Target conf) then None
                     else Some (UnexpectedStateError None st (Target conf))), Suc (k + n))"
  using assms
proof (induction n arbitrary: rounds k nf ls)
  case 0
  then obtain m where "rounds = Suc m" by (cases rounds) auto
  with 0 show ?case by simp
next
  case (Suc n)
  then obtain m where m: "rounds = Suc m" by (cases rounds) auto
  from Suc.prems(1) obtain r0 st0 where
    first: "Refresh k = (Some r0, st0, None)" "st0 \<in> set (Pending conf)" "st0 \<notin> set (Target conf)"
    by force
  from Suc.prems(1) have shift:
    "\<forall>i<n. \<exists>r st. Refresh (Suc k + i) = (Some r, st, None) \<and> st \<in> set (Pending conf) \<and>
              st \<notin> set (Target conf)"
    by force
  from Suc.prems(2) have fin: "Refresh (Suc k + n) = (Some r, st, None)" by simp
  from Suc.prems(5) m have "n < m" by simp
  from Suc.IH [OF shift fin Suc.prems(3) Suc.prems(4) this, of 0 st0] first m
  show ?case by simp
qed

lemma WaitForState_loop_timeout:
  assumes "\<forall>i<rounds. \<exists>r. Refresh (k + i) = (Some r, p, None)"
    and "p \<in> set (Pending conf)" and "p \<notin> set (Target conf)"
  shows "WaitForState_loop conf Refresh rounds k nf ls =
           ((None, Some (TimeoutError None (if rounds = 0 then ls else p) (Timeout conf)
                          (Target conf))), k + rounds)"
  using assms
proof (induction rounds arbitrary: k nf ls)
  case 0
  then show ?case by simp
next
  case (Suc rounds)
  from Suc.prems(1) obtain r0 where first: "Refresh k = (Some r0, p, None)" by force
  from Suc.prems(1) have shift: "\<forall>i<rounds. \<exists>r. Refresh (Suc k + i) = (Some r, p, None)"
    by force
  have "WaitForState_loop conf Refresh rounds (Suc k) 0 p =
          ((None, Some (TimeoutError None (if rounds = 0 then p else p) (Timeout conf)
                         (Target conf))), Suc k + rounds)"
    using shift Suc.prems(2) Suc.prems(3) by (rule Suc.IH)
  with first Suc.prems(2) Suc.prems(3) show ?case by simp
qed

lemma statusCertificate_found:
  "DescribeCertificate k = (Some \<lparr>Certificate = Some c\<rparr>, None) \<Longrightarrow>
   statusCertificate DescribeCertificate k = (Some c, StringValue (Status c), None)"
  by (simp add: statusCertificate_def findCertificate_def)

text \<open>
  C7. \<open>waitCertificateIssued\<close> polls the certificate status with PENDING_VALIDATION as the only
  pending state and ISSUED as the only target state, for at most the given timeout. While the
  status is PENDING_VALIDATION it polls again, and when the timeout is used up it returns a
  timeout error and no certificate. At the first other status it returns the certificate:
  without error for ISSUED, with an unexpected-state error carrying the failure reason for
  FAILED, the revocation reason for REVOKED, and no reason for any other status. In every case
  the number of polls is at most the timeout.
\<close>

theorem waitCertificateIssued_outcome:
  assumes pend: "\<forall>i<n. \<exists>c. DescribeCertificate i = (Some \<lparr>Certificate = Some c\<rparr>, None) \<and>
                   StringValue (Status c) = CertificateStatusPendingValidation"
    and le: "n \<le> timeout"
  shows "(n = timeout \<longrightarrow>
            waitCertificateIssued DescribeCertificate timeout =
              ((None, Some (TimeoutError None
                  (if timeout = 0 then [] else CertificateStatusPendingValidation) timeout
                  [CertificateStatusIssued])), timeout)) \<and>
         (n < timeout \<and> DescribeCertificate n = (Some \<lparr>Certificate = Some cert\<rparr>, None) \<longrightarrow>
            (StringValue (Status cert) = CertificateStatusIssued \<longrightarrow>
               waitCertificateIssued DescribeCertificate timeout = ((Some cert, None), Suc n)) \<and>
            (StringValue (Status cert) = CertificateStatusFailed \<longrightarrow>
               waitCertificateIssued DescribeCertificate timeout =
                 ((Some cert, Some (UnexpectedStateError
                     (Some (ErrorsNew (StringValue (FailureReason cert))))
                     CertificateStatusFailed [CertificateStatusIssued])), Suc n)) \<and>
            (StringValue (Status cert) = CertificateStatusRevoked \<longrightarrow>
               waitCertificateIssued DescribeCertificate timeout =
                 ((Some cert, Some (UnexpectedStateError
                     (Some (ErrorsNew (StringValue (RevocationReason cert))))
                     CertificateStatusRevoked [CertificateStatusIssued])), Suc n)) \<and>
            (StringValue (Status cert) \<notin> {CertificateStatusPendingValidation,
                 CertificateStatusIssued, CertificateStatusFailed, CertificateStatusRevoked} \<longrightarrow>
               waitCertificateIssued DescribeCertificate timeout =
                 ((Some cert, Some (UnexpectedStateError None (StringValue (Status cert))
                     [CertificateStatusIssued])), Suc n))) \<and>
         snd (waitCertificateIssued DescribeCertificate timeout) \<le> timeout"
proof -
  let ?conf = "\<lparr>Pending = [CertificateStatusPendingValidation],
                 Target = [CertificateStatusIssued], Timeout = timeout\<rparr>"
  let ?R = "statusCertificate DescribeCertificate"
  have neq: "CertificateStatusPendingValidation \<noteq> CertificateStatusIssued"
    by (simp add: CertificateStatusPendingValidation_def CertificateStatusIssued_def)
  have pendR: "\<forall>i<n. \<exists>r. ?R (0 + i) = (Some r, CertificateStatusPendingValidation, None)"
    using pend statusCertificate_found by fastforce
  have timeout_case: "waitCertificateIssued DescribeCertificate timeout =
      ((None, Some (TimeoutError None
          (if timeout = 0 then [] else CertificateStatusPendingValidation) timeout
          [CertificateStatusIssued])), timeout)" if "n = timeout"
  proof -
    from pendR that
    have "\<forall>i<timeout. \<exists>r. ?R (0 + i) = (Some r, CertificateStatusPendingValidation, None)"
      by simp
    from WaitForState_loop_timeout [where conf = ?conf and nf = 0 and ls = "[]", OF this] neq
    show ?thesis
      by (simp add: waitCertificateIssued_def WaitForState_def)
  qed
  have final: "WaitForState ?conf ?R =
      ((Some cert, if StringValue (Status cert) = CertificateStatusIssued then None
                   else Some (UnexpectedStateError None (StringValue (Status cert))
                          [CertificateStatusIssued])), Suc n)"
    if lt: "n < timeout" and fin: "DescribeCertificate n = (Some \<lparr>Certificate = Some cert\<rparr>, None)"
      and np: "StringValue (Status cert) \<noteq> CertificateStatusPendingValidation"
  proof -
    have a: "\<forall>i<n. \<exists>r st. ?R (0 + i) = (Some r, st, None) \<and> st \<in> set (Pending ?conf) \<and>
               st \<notin> set (Target ?conf)"
      using pendR neq by simp
    have b: "?R (0 + n) = (Some cert, StringValue (Status cert), None)"
      using fin by (simp add: statusCertificate_found)
    from WaitForState_loop_pending [where conf = ?conf and nf = 0 and ls = "[]", OF a b] np lt
    show ?thesis by (simp add: WaitForState_def)
  qed
  have status_neq:
    "CertificateStatusIssued \<noteq> CertificateStatusPendingValidation"
    "CertificateStatusFailed \<noteq> CertificateStatusPendingValidation"
    "CertificateStatusRevoked \<noteq> CertificateStatusPendingValidation"
    "CertificateStatusFailed \<noteq> CertificateStatusIssued"
    "CertificateStatusRevoked \<noteq> CertificateStatusIssued"
    "CertificateStatusRevoked \<noteq> CertificateStatusFailed"
    by (simp_all add: CertificateStatusPendingValidation_def CertificateStatusIssued_def
          CertificateStatusFailed_def CertificateStatusRevoked_def)
  show ?thesis
  proof (intro conjI impI)
    assume "n = timeout"
    then show "waitCertificateIssued DescribeCertificate timeout =
      ((None, Some (TimeoutError None
          (if timeout = 0 then [] else CertificateStatusPendingValidation) timeout
          [CertificateStatusIssued])), timeout)"
      by (rule timeout_case)
  next
    assume h: "n < timeout \<and> DescribeCertificate n = (Some \<lparr>Certificate = Some cert\<rparr>, None)"
      and s: "StringValue (Status cert) = CertificateStatusIssued"
    from final h s status_neq
    show "waitCertificateIssued DescribeCertificate timeout = ((Some cert, None), Suc n)"
      by (simp add: waitCertificateIssued_def)
  next
    assume h: "n < timeout \<and> DescribeCertificate n = (Some \<lparr>Certificate = Some cert\<rparr>, None)"
      and s: "StringValue (Status cert) = CertificateStatusFailed"
    from final h s status_neq
    show "waitCertificateIssued DescribeCertificate timeout =
                 ((Some cert, Some (UnexpectedStateError
                     (Some (ErrorsNew (StringValue (FailureReason cert))))
                     CertificateStatusFailed [CertificateStatusIssued])), Suc n)"
      by (simp add: waitCertificateIssued_def)
  next
    assume h: "n < timeout \<and> DescribeCertificate n = (Some \<lparr>Certificate = Some cert\<rparr>, None)"
      and s: "StringValue (Status cert) = CertificateStatusRevoked"
    from final h s status_neq
    show "waitCertificateIssued DescribeCertificate timeout =
                 ((Some cert, Some (UnexpectedStateError
                     (Some (ErrorsNew (StringValue (RevocationReason cert))))
                     CertificateStatusRevoked [CertificateStatusIssued])), Suc n)"
      by (simp add: waitCertificateIssued_def)
  next
    assume h: "n < timeout \<and> DescribeCertificate n = (Some \<lparr>Certificate = Some cert\<rparr>, None)"
      and s: "StringValue (Status cert) \<notin> {CertificateStatusPendingValidation,
                 CertificateStatusIssued, CertificateStatusFailed, CertificateStatusRevoked}"
    from final h s
    show "waitCertificateIssued DescribeCertificate timeout =
                 ((Some cert, Some (UnexpectedStateError None (StringValue (Status cert))
                     [CertificateStatusIssued])), Suc n)"
      by (simp add: waitCertificateIssued_def)
  next
    show "snd (waitCertificateIssued DescribeCertificate timeout) \<le> timeout"
      using WaitForState_loop_polls [of ?conf ?R timeout 0 0 "[]"]
      by (auto simp: waitCertificateIssued_def WaitForState_def Let_def
            split: prod.splits option.splits)
  qed
qed

theorem waitCertificateIssued_outcome_witness:
  "pending_then_failed 0 = (Some \<lparr>Certificate = Some pending_cert\<rparr>, None) \<and>
   pending_then_failed 1 = (Some \<lparr>Certificate = Some pending_cert\<rparr>, None) \<and>
   StringValue (Status pending_cert) = CertificateStatusPendingValidation \<and>
   (2::nat) < 10 \<and>
   pending_then_failed 2 = (Some \<lparr>Certificate = Some failed_cert\<rparr>, None) \<and>
   StringValue (Status failed_cert) = CertificateStatusFailed \<and>
   waitCertificateIssued pending_then_failed 10 =
     ((Some failed_cert,
       Some (UnexpectedStateError (Some (ErrorsNew ''CAA_ERROR'')) ''FAILED'' [''ISSUED''])), 3)"
  using waitCertificateIssued_outcome
    [where n = 2 and timeout = 10 and DescribeCertificate = pending_then_failed
       and cert = failed_cert]
  by (simp add: pending_then_failed_def pending_cert_def failed_cert_def
        CertificateStatusPendingValidation_def CertificateStatusFailed_def
        CertificateStatusIssued_def less_Suc_eq eval_nat_numeral)

subsection \<open>The change-token retry protocol\<close>

lemma total_delay_snoc: "total_delay pol k (Suc n) = total_delay pol k n + delay pol (k + n)"
  by (induction n arbitrary: k) simp_all

lemma total_elapsed_snoc:
  "total_elapsed pol w k (Suc n) =
     total_elapsed pol w k n + (fetch_time w (k + n) + op_time w (k + n) + delay pol (k + n))"
proof (induction n arbitrary: k)
  case 0
  show ?case by simp
next
  case (Suc n)
  have "total_elapsed pol w k (Suc (Suc n)) =
          fetch_time w k + op_time w k + delay pol k + total_elapsed pol w (Suc k) (Suc n)"
    by simp
  also have "total_elapsed pol w (Suc k) (Suc n) =
          total_elapsed pol w (Suc k) n +
          (fetch_time w (Suc k + n) + op_time w (Suc k + n) + delay pol (Suc k + n))"
    by (rule Suc.IH)
  finally show ?case by simp
qed

text \<open>When the calls take no time, the elapsed time is the time spent in the waits.\<close>

lemma total_elapsed_no_call_time:
  "\<forall>k. fetch_time w k = 0 \<and> op_time w k = 0 \<Longrightarrow> total_elapsed pol w k n = total_delay pol k n"
  by (induction n arbitrary: k) simp_all

lemma total_elapsed_mono: "total_elapsed pol w k n \<le> total_elapsed pol w k (Suc n)"
  by (simp only: total_elapsed_snoc le_add1)

lemma retry_loop_failures:
  assumes "\<forall>i<N. FetchChangeToken w (fetches s + i) = Inr (tok i) \<and>
                  operation w (fetches s + i) (tok i) = Inl (err i) \<and> retryable pol (err i)"
    and "invocations s = fetches s"
    and "now s + total_elapsed pol w (fetches s) N \<le> budget pol"
    and "\<forall>c. canceled_at w = Some c \<longrightarrow> now s + total_elapsed pol w (fetches s) N < c"
  shows "\<exists>s'. retry_loop (N + fuel) pol w s = retry_loop fuel pol w s' \<and>
              now s' = now s + total_elapsed pol w (fetches s) N \<and>
              fetches s' = fetches s + N \<and> invocations s' = fetches s + N"
  using assms
proof (induction N arbitrary: s tok err)
  case 0
  show ?case using "0.prems"(2) by (intro exI [of _ s]) simp
next
  case (Suc N)
  let ?k = "fetches s"
  let ?t = "now s + fetch_time w ?k + op_time w ?k"
  let ?s1 = "s\<lparr>now := now s + fetch_time w ?k, fetches := Suc ?k,
               trace := trace s @ [Fetched ?k (FetchChangeToken w ?k)]\<rparr>"
  let ?s2 = "?s1\<lparr>now := now ?s1 + op_time w (invocations ?s1),
                  invocations := Suc (invocations ?s1),
                  trace := trace ?s1 @ [Invoked (invocations ?s1) (tok 0)]\<rparr>"
  let ?s3 = "?s2\<lparr>now := now ?s2 + delay pol ?k,
                  trace := trace ?s2 @ [Waited ?k (delay pol ?k)]\<rparr>"
  from Suc.prems(1) have first:
    "FetchChangeToken w ?k = Inr (tok 0)" "operation w ?k (tok 0) = Inl (err 0)"
    "retryable pol (err 0)"
    by force+
  from Suc.prems(3) have t: "?t + delay pol ?k \<le> budget pol" by simp
  from Suc.prems(4) have c: "\<forall>c. canceled_at w = Some c \<longrightarrow> ?t + delay pol ?k < c"
    by fastforce
  have b: "backoff pol w ?k ?s2 (err 0) = Inr ?s3"
    using t c Suc.prems(2) by (auto simp: backoff_def Let_def split: option.splits)
  have step: "retry_loop (Suc N + fuel) pol w s = retry_loop (N + fuel) pol w ?s3"
    using first b Suc.prems(2) by (simp add: Let_def)
  have p1: "\<forall>i<N. FetchChangeToken w (fetches ?s3 + i) = Inr (tok (Suc i)) \<and>
              operation w (fetches ?s3 + i) (tok (Suc i)) = Inl (err (Suc i)) \<and>
              retryable pol (err (Suc i))"
    using Suc.prems(1) by fastforce
  have p2: "invocations ?s3 = fetches ?s3" using Suc.prems(2) by simp
  have p3: "now ?s3 + total_elapsed pol w (fetches ?s3) N \<le> budget pol"
    using Suc.prems(2) Suc.prems(3) by (simp add: add.assoc)
  have p4: "\<forall>c. canceled_at w = Some c \<longrightarrow> now ?s3 + total_elapsed pol w (fetches ?s3) N < c"
    using Suc.prems(2) Suc.prems(4) by (simp add: add.assoc)
  from Suc.IH [OF p1 p2 p3 p4] obtain s' where
    "retry_loop (N + fuel) pol w ?s3 = retry_loop fuel pol w s'"
    "now s' = now ?s3 + total_elapsed pol w (fetches ?s3) N"
    "fetches s' = fetches ?s3 + N" "invocations s' = fetches ?s3 + N"
    by blast
  with step Suc.prems(2) show ?case by (intro exI [of _ s']) (simp add: add.assoc)
qed

lemma init_failures:
  assumes "\<forall>i<N. FetchChangeToken w i = Inr (tok i) \<and> operation w i (tok i) = Inl (err i) \<and>
                  retryable pol (err i)"
    and "total_elapsed pol w 0 N \<le> budget pol"
    and "\<forall>c. canceled_at w = Some c \<longrightarrow> total_elapsed pol w 0 N < c"
  shows "\<exists>s'. RetryWithToken (N + fuel) pol w = retry_loop fuel pol w s' \<and>
              now s' = total_elapsed pol w 0 N \<and> fetches s' = N \<and> invocations s' = N"
  using retry_loop_failures
    [where s = "\<lparr>now = 0, fetches = 0, invocations = 0, trace = []\<rparr>" and w = w and pol = pol
       and N = N and tok = tok and err = err and fuel = fuel] assms
  by (simp add: RetryWithToken_def)

lemma retry_loop_success_step:
  assumes "FetchChangeToken w (fetches s) = Inr t"
    and "operation w (invocations s) t = Inr result"
  shows "\<exists>s'. retry_loop (Suc m) pol w s = (Some (Success result), s') \<and>
              fetches s' = Suc (fetches s) \<and> invocations s' = Suc (invocations s) \<and>
              now s' = now s + fetch_time w (fetches s) + op_time w (invocations s)"
  using assms by (simp add: Let_def)

lemma retry_loop_fatal_step:
  assumes "FetchChangeToken w (fetches s) = Inr t"
    and "operation w (invocations s) t = Inl e"
    and "\<not> retryable pol e"
  shows "\<exists>s'. retry_loop (Suc m) pol w s = (Some (Fatal e), s') \<and>
              fetches s' = Suc (fetches s) \<and> invocations s' = Suc (invocations s) \<and>
              now s' = now s + fetch_time w (fetches s) + op_time w (invocations s)"
  using assms by (simp add: Let_def)

lemma retry_loop_timeout_step:
  assumes "FetchChangeToken w (fetches s) = Inr t"
    and "operation w (invocations s) t = Inl e"
    and "retryable pol e"
    and "budget pol < now s + fetch_time w (fetches s) + op_time w (invocations s) +
                      delay pol (fetches s)"
    and "\<forall>c. canceled_at w = Some c \<longrightarrow> budget pol < c"
  shows "\<exists>s'. retry_loop (Suc m) pol w s = (Some (TimedOut e), s') \<and>
              fetches s' = Suc (fetches s) \<and> invocations s' = Suc (invocations s) \<and>
              now s' = max (now s + fetch_time w (fetches s) + op_time w (invocations s))
                         (budget pol)"
  using assms by (auto simp: Let_def backoff_def split: option.splits)


lemma backoff_TimedOut:
  assumes "budget pol < now s + delay pol k"
    and "\<forall>c. canceled_at w = Some c \<longrightarrow> budget pol < c"
  shows "backoff pol w k s e = Inl (TimedOut e, s\<lparr>now := max (now s) (budget pol)\<rparr>)"
  using assms by (auto simp: backoff_def Let_def split: option.splits)

lemma backoff_Canceled:
  assumes "canceled_at w = Some c"
    and "now s \<le> c" and "c \<le> now s + delay pol k" and "c \<le> budget pol"
  shows "backoff pol w k s e = Inl (Canceled, s\<lparr>now := c\<rparr>)"
  using assms by (auto simp: backoff_def Let_def max_def split: option.splits)

lemma token_run_append:
  "token_run h (xs @ ys) = (case token_run h xs of None \<Rightarrow> None | Some h' \<Rightarrow> token_run h' ys)"
  by (induction xs arbitrary: h) (auto split: option.splits)

lemma backoff_token_run:
  "token_run None (trace s) = Some None \<Longrightarrow>
   (case backoff pol w k s e of
      Inl (out, s') \<Rightarrow> token_run None (trace s') = Some None
    | Inr s' \<Rightarrow> token_run None (trace s') = Some None)"
  by (auto simp: backoff_def Let_def token_run_append split: option.splits)

lemma retry_loop_token_run:
  "token_run None (trace s) = Some None \<Longrightarrow>
   token_run None (trace (snd (retry_loop fuel pol w s))) = Some None"
proof (induction fuel arbitrary: s)
  case 0
  then show ?case by simp
next
  case (Suc fuel)
  let ?k = "fetches s"
  let ?s1 = "s\<lparr>now := now s + fetch_time w ?k, fetches := Suc ?k,
               trace := trace s @ [Fetched ?k (FetchChangeToken w ?k)]\<rparr>"
  show ?case
  proof (cases "FetchChangeToken w ?k")
    case (Inl e)
    have t1: "token_run None (trace ?s1) = Some None"
      using Suc.prems Inl by (simp add: token_run_append)
    show ?thesis
    proof (cases "retryable pol e")
      case False
      with Inl t1 show ?thesis by (simp add: Let_def)
    next
      case True
      show ?thesis
      proof (cases "backoff pol w ?k ?s1 e")
        case (Inl a)
        obtain out s' where a: "a = (out, s')" by (cases a)
        with backoff_token_run [OF t1, of pol w ?k e] Inl
        have "token_run None (trace s') = Some None" by simp
        with \<open>FetchChangeToken w ?k = Inl e\<close> True Inl a show ?thesis
          by (simp add: Let_def)
      next
        case (Inr s')
        with backoff_token_run [OF t1, of pol w ?k e]
        have "token_run None (trace s') = Some None" by simp
        from Suc.IH [OF this] \<open>FetchChangeToken w ?k = Inl e\<close> True Inr show ?thesis
          by (simp add: Let_def)
      qed
    qed
  next
    case (Inr tok)
    let ?s2 = "?s1\<lparr>now := now ?s1 + op_time w (invocations s),
                    invocations := Suc (invocations s),
                    trace := trace ?s1 @ [Invoked (invocations s) tok]\<rparr>"
    have t2: "token_run None (trace ?s2) = Some None"
      using Suc.prems Inr by (simp add: token_run_append)
    show ?thesis
    proof (cases "operation w (invocations s) tok")
      case (Inr result)
      with \<open>FetchChangeToken w ?k = Inr tok\<close> t2 show ?thesis by (simp add: Let_def)
    next
      case (Inl e)
      show ?thesis
      proof (cases "retryable pol e")
        case False
        with Inl \<open>FetchChangeToken w ?k = Inr tok\<close> t2 show ?thesis by (simp add: Let_def)
      next
        case True
        show ?thesis
        proof (cases "backoff pol w ?k ?s2 e")
          case (Inl a)
          obtain out s' where a: "a = (out, s')" by (cases a)
          with backoff_token_run [OF t2, of pol w ?k e] Inl
          have "token_run None (trace s') = Some None" by simp
          with \<open>FetchChangeToken w ?k = Inr tok\<close> \<open>operation w (invocations s) tok = Inl e\<close>
            True Inl a show ?thesis
            by (simp add: Let_def)
        next
          case (Inr s')
          with backoff_token_run [OF t2, of pol w ?k e]
          have "token_run None (trace s') = Some None" by simp
          from Suc.IH [OF this] \<open>FetchChangeToken w ?k = Inr tok\<close>
            \<open>operation w (invocations s) tok = Inl e\<close> True Inr show ?thesis
            by (simp add: Let_def)
        qed
      qed
    qed
  qed
qed

text \<open>The equations that evaluate a run on a concrete scenario.\<close>

text \<open>The equations that evaluate a run on a concrete scenario.\<close>

lemmas retry_eval = RetryWithToken_def backoff_def Let_def stale_policy_def issue_token_def
  stale_err_def eval_nat_numeral

text \<open>
  C1. When the first \<open>N\<close> attempts fetch a token and the operation fails with a retryable
  (stale-token) error, the attempt \<open>N\<close> fetches a token and the operation succeeds, the \<open>N\<close>
  failed attempts and the waits that follow them fit into the time budget and the context is
  not canceled during them, then \<open>RetryWithToken\<close> returns the result of that last attempt
  after exactly \<open>N + 1\<close> token fetches and \<open>N + 1\<close> invocations of the operation. The run is
  over within \<open>N + 1\<close> attempts.
\<close>

theorem RetryWithToken_stale_then_success:
  assumes "\<forall>i<N. FetchChangeToken w i = Inr (tok i) \<and> operation w i (tok i) = Inl (err i) \<and>
                  retryable pol (err i)"
    and "FetchChangeToken w N = Inr (tok N)"
    and "operation w N (tok N) = Inr result"
    and "total_elapsed pol w 0 N \<le> budget pol"
    and "\<forall>c. canceled_at w = Some c \<longrightarrow> total_elapsed pol w 0 N < c"
    and "N < fuel"
  shows "\<exists>s'. RetryWithToken fuel pol w = (Some (Success result), s') \<and>
              fetches s' = N + 1 \<and> invocations s' = N + 1"
proof -
  from assms(6) obtain m where fuel: "fuel = N + Suc m"
    by (metis add_Suc_right less_imp_Suc_add)
  from init_failures [OF assms(1) assms(4) assms(5), of "Suc m"] obtain s where
    run: "RetryWithToken (N + Suc m) pol w = retry_loop (Suc m) pol w s"
    and f: "fetches s = N" and i: "invocations s = N"
    by blast
  have a: "FetchChangeToken w (fetches s) = Inr (tok N)"
    by (simp only: f assms(2))
  have b: "operation w (invocations s) (tok N) = Inr result"
    by (simp only: i assms(3))
  from retry_loop_success_step [OF a b, of m pol] obtain s' where
    "retry_loop (Suc m) pol w s = (Some (Success result), s')"
    "fetches s' = Suc (fetches s)" "invocations s' = Suc (invocations s)"
    by blast
  with run fuel f i show ?thesis by (intro exI [of _ s']) simp
qed

theorem RetryWithToken_stale_then_success_witness:
  "FetchChangeToken stale_twice 0 = Inr (issue_token 0) \<and>
   operation stale_twice 0 (issue_token 0) = Inl (stale_err 0) \<and>
   retryable stale_policy (stale_err 0) \<and>
   FetchChangeToken stale_twice 1 = Inr (issue_token 1) \<and>
   operation stale_twice 1 (issue_token 1) = Inl (stale_err 1) \<and>
   retryable stale_policy (stale_err 1) \<and>
   FetchChangeToken stale_twice 2 = Inr (issue_token 2) \<and>
   operation stale_twice 2 (issue_token 2) = Inr ''ttt'' \<and>
   total_elapsed stale_policy stale_twice 0 2 \<le> budget stale_policy \<and>
   canceled_at stale_twice = None \<and>
   fst (RetryWithToken 3 stale_policy stale_twice) = Some (Success ''ttt'') \<and>
   fetches (snd (RetryWithToken 3 stale_policy stale_twice)) = 3 \<and>
   invocations (snd (RetryWithToken 3 stale_policy stale_twice)) = 3"
  using RetryWithToken_stale_then_success
    [where N = 2 and fuel = 3 and pol = stale_policy and w = stale_twice and tok = issue_token
       and err = stale_err and result = "''ttt''"]
  by (auto simp: retry_eval stale_twice_def less_Suc_eq)

text \<open>After any number of retryable failures a fatal error ends the run with that attempt.\<close>

lemma retry_fatal_after_failures:
  assumes "\<forall>i<N. FetchChangeToken w i = Inr (tok i) \<and> operation w i (tok i) = Inl (err i) \<and>
                  retryable pol (err i)"
    and "FetchChangeToken w N = Inr (tok N)"
    and "operation w N (tok N) = Inl e"
    and "\<not> retryable pol e"
    and "total_elapsed pol w 0 N \<le> budget pol"
    and "\<forall>c. canceled_at w = Some c \<longrightarrow> total_elapsed pol w 0 N < c"
    and "N < fuel"
  shows "\<exists>s'. RetryWithToken fuel pol w = (Some (Fatal e), s') \<and>
              fetches s' = N + 1 \<and> invocations s' = N + 1"
proof -
  from assms(7) obtain m where fuel: "fuel = N + Suc m"
    by (metis add_Suc_right less_imp_Suc_add)
  from init_failures [OF assms(1) assms(5) assms(6), of "Suc m"] obtain s where
    run: "RetryWithToken (N + Suc m) pol w = retry_loop (Suc m) pol w s"
    and f: "fetches s = N" and i: "invocations s = N"
    by blast
  have a: "FetchChangeToken w (fetches s) = Inr (tok N)"
    by (simp only: f assms(2))
  have b: "operation w (invocations s) (tok N) = Inl e"
    by (simp only: i assms(3))
  from retry_loop_fatal_step [OF a b assms(4), of m] obtain s' where
    "retry_loop (Suc m) pol w s = (Some (Fatal e), s')"
    "fetches s' = Suc (fetches s)" "invocations s' = Suc (invocations s)"
    by blast
  with run fuel f i show ?thesis by (intro exI [of _ s']) simp
qed

text \<open>
  C2. When the operation returns a fatal (non-retryable) error, \<open>RetryWithToken\<close> returns that
  error after exactly one token fetch and one invocation of the operation; the log holds the
  fetch and the invocation and nothing else, so nothing is retried.
\<close>

theorem RetryWithToken_fatal:
  assumes "FetchChangeToken w 0 = Inr t"
    and "operation w 0 t = Inl e"
    and "\<not> retryable pol e"
    and "0 < fuel"
  shows "\<exists>s'. RetryWithToken fuel pol w = (Some (Fatal e), s') \<and>
              fetches s' = 1 \<and> invocations s' = 1 \<and>
              trace s' = [Fetched 0 (Inr t), Invoked 0 t]"
proof -
  from assms(4) obtain m where "fuel = Suc m" by (cases fuel) auto
  with assms(1) assms(2) assms(3) show ?thesis
    by (simp add: RetryWithToken_def Let_def)
qed

theorem RetryWithToken_fatal_witness:
  "FetchChangeToken denied 0 = Inr ''t'' \<and>
   operation denied 0 ''t'' = Inl (AwsErr ''WAFInvalidAccountException'' ''permission denied'') \<and>
   \<not> retryable stale_policy (AwsErr ''WAFInvalidAccountException'' ''permission denied'') \<and>
   fst (RetryWithToken 5 stale_policy denied) =
     Some (Fatal (AwsErr ''WAFInvalidAccountException'' ''permission denied'')) \<and>
   fetches (snd (RetryWithToken 5 stale_policy denied)) = 1 \<and>
   invocations (snd (RetryWithToken 5 stale_policy denied)) = 1"
  using RetryWithToken_fatal
    [where fuel = 5 and pol = stale_policy and w = denied and t = "''t''"
       and e = "AwsErr ''WAFInvalidAccountException'' ''permission denied''"]
  by (auto simp: retry_eval denied_def)

text \<open>The run that times out with the attempt \<open>M\<close>: the attempts before it and their waits fit
  into the budget, the attempt \<open>M\<close> and its wait do not.\<close>

lemma retry_timeout_in_attempt:
  assumes "\<forall>i<Suc M. FetchChangeToken w i = Inr (tok i) \<and>
                  operation w i (tok i) = Inl (err i) \<and> retryable pol (err i)"
    and "total_elapsed pol w 0 M \<le> budget pol"
    and "budget pol < total_elapsed pol w 0 (Suc M)"
    and "\<forall>c. canceled_at w = Some c \<longrightarrow> budget pol < c"
    and "M < fuel"
  shows "\<exists>s'. RetryWithToken fuel pol w = (Some (TimedOut (err M)), s') \<and>
              fetches s' = M + 1 \<and> invocations s' = M + 1 \<and>
              now s' = max (total_elapsed pol w 0 M + fetch_time w M + op_time w M) (budget pol)"
proof -
  from assms(5) obtain m where fuel: "fuel = M + Suc m"
    by (metis add_Suc_right less_imp_Suc_add)
  have pre: "\<forall>i<M. FetchChangeToken w i = Inr (tok i) \<and> operation w i (tok i) = Inl (err i) \<and>
                  retryable pol (err i)"
    using assms(1) by simp
  have nc: "\<forall>c. canceled_at w = Some c \<longrightarrow> total_elapsed pol w 0 M < c"
    using assms(2) assms(4) by fastforce
  from init_failures [OF pre assms(2) nc, of "Suc m"] obtain s where
    run: "RetryWithToken (M + Suc m) pol w = retry_loop (Suc m) pol w s"
    and n: "now s = total_elapsed pol w 0 M" and f: "fetches s = M" and i: "invocations s = M"
    by blast
  from assms(1) have last:
    "FetchChangeToken w M = Inr (tok M)" "operation w M (tok M) = Inl (err M)"
    "retryable pol (err M)"
    by simp_all
  have a: "FetchChangeToken w (fetches s) = Inr (tok M)"
    by (simp only: f last(1))
  have b: "operation w (invocations s) (tok M) = Inl (err M)"
    by (simp only: i last(2))
  have over: "budget pol < now s + fetch_time w (fetches s) + op_time w (invocations s) +
                           delay pol (fetches s)"
    using assms(3) total_elapsed_snoc [of pol w 0 M] n f i by simp
  from retry_loop_timeout_step [OF a b last(3) over assms(4), of m] obtain s' where
    "retry_loop (Suc m) pol w s = (Some (TimedOut (err M)), s')"
    "fetches s' = Suc (fetches s)" "invocations s' = Suc (invocations s)"
    "now s' = max (now s + fetch_time w (fetches s) + op_time w (invocations s)) (budget pol)"
    by blast
  with run fuel n f i show ?thesis by (intro exI [of _ s']) simp
qed

lemma total_elapsed_crossing:
  assumes "budget pol < total_elapsed pol w 0 n"
  shows "\<exists>M<n. total_elapsed pol w 0 M \<le> budget pol \<and>
               budget pol < total_elapsed pol w 0 (Suc M)"
  using assms
proof (induction n)
  case 0
  then show ?case by simp
next
  case (Suc n)
  show ?case
  proof (cases "budget pol < total_elapsed pol w 0 n")
    case True
    from Suc.IH [OF this] show ?thesis by (auto intro: less_SucI)
  next
    case False
    then have "total_elapsed pol w 0 n \<le> budget pol" by simp
    with Suc.prems show ?thesis by (intro exI [of _ n]) (simp only: lessI simp_thms)
  qed
qed

text \<open>
  C3. When every attempt fetches a token and fails with a retryable error, the cumulative
  elapsed wall-clock time (the durations of the fetches, of the invocations and of the waits)
  comes to exceed the budget, and the context is not canceled before the budget is used up,
  then \<open>RetryWithToken\<close> returns a timeout error that wraps the error of its last attempt, the
  last retryable error encountered. That attempt, the attempt \<open>M\<close>, is the one with which the
  elapsed time passes the budget, in its calls or in the wait that would follow them; the
  run returns when the budget ends, or when the calls of that attempt return if that is later.
\<close>

theorem RetryWithToken_timeout:
  assumes "\<forall>i<n. FetchChangeToken w i = Inr (tok i) \<and> operation w i (tok i) = Inl (err i) \<and>
                 retryable pol (err i)"
    and "budget pol < total_elapsed pol w 0 n"
    and "\<forall>c. canceled_at w = Some c \<longrightarrow> budget pol < c"
  shows "\<exists>M<n. total_elapsed pol w 0 M \<le> budget pol \<and>
               budget pol < total_elapsed pol w 0 (Suc M) \<and>
               (\<forall>fuel>M. \<exists>s'.
                  RetryWithToken fuel pol w = (Some (TimedOut (err M)), s') \<and>
                  fetches s' = M + 1 \<and> invocations s' = M + 1 \<and>
                  now s' = max (total_elapsed pol w 0 M + fetch_time w M + op_time w M)
                             (budget pol))"
proof -
  from total_elapsed_crossing [OF assms(2)] obtain M where
    M: "M < n" "total_elapsed pol w 0 M \<le> budget pol"
       "budget pol < total_elapsed pol w 0 (Suc M)"
    by blast
  have pre: "\<forall>i<Suc M. FetchChangeToken w i = Inr (tok i) \<and>
               operation w i (tok i) = Inl (err i) \<and> retryable pol (err i)"
    using assms(1) M(1) by simp
  have "\<exists>s'. RetryWithToken fuel pol w = (Some (TimedOut (err M)), s') \<and>
           fetches s' = M + 1 \<and> invocations s' = M + 1 \<and>
           now s' = max (total_elapsed pol w 0 M + fetch_time w M + op_time w M) (budget pol)"
    if "M < fuel" for fuel
    using pre M(2) M(3) assms(3) that by (rule retry_timeout_in_attempt)
  with M show ?thesis by blast
qed

theorem RetryWithToken_timeout_witness:
  "FetchChangeToken slow_stale 1 = Inr (issue_token 1) \<and>
   operation slow_stale 1 (issue_token 1) = Inl (stale_err 1) \<and>
   retryable eager_policy (stale_err 1) \<and>
   delay eager_policy 1 = 0 \<and>
   budget eager_policy < total_elapsed eager_policy slow_stale 0 2 \<and>
   canceled_at slow_stale = None \<and>
   fst (RetryWithToken 9 eager_policy slow_stale) = Some (TimedOut (stale_err 1)) \<and>
   fetches (snd (RetryWithToken 9 eager_policy slow_stale)) = 2 \<and>
   invocations (snd (RetryWithToken 9 eager_policy slow_stale)) = 2 \<and>
   now (snd (RetryWithToken 9 eager_policy slow_stale)) = 6 \<and>
   budget stale_policy < total_elapsed stale_policy always_stale 0 3 \<and>
   canceled_at always_stale = None \<and>
   fst (RetryWithToken 9 stale_policy always_stale) = Some (TimedOut (stale_err 2)) \<and>
   fetches (snd (RetryWithToken 9 stale_policy always_stale)) = 3 \<and>
   invocations (snd (RetryWithToken 9 stale_policy always_stale)) = 3 \<and>
   now (snd (RetryWithToken 9 stale_policy always_stale)) = 5"
  using RetryWithToken_timeout
    [where n = 2 and pol = eager_policy and w = slow_stale and tok = issue_token
       and err = stale_err]
    RetryWithToken_timeout
    [where n = 3 and pol = stale_policy and w = always_stale and tok = issue_token
       and err = stale_err]
  by (auto simp: retry_eval eager_policy_def slow_stale_def always_stale_def less_Suc_eq)



text \<open>
  C5. In every run of \<open>RetryWithToken\<close>, however long it has been running, the log of effects
  obeys the token discipline: a token is fetched only while none is held, every invocation
  uses the token of the fetch directly before it and gives it up, no token is held during a
  wait, and none is held where the log ends.
\<close>

theorem RetryWithToken_token_discipline:
  "token_run None (trace (snd (RetryWithToken fuel pol w))) = Some None"
  unfolding RetryWithToken_def by (rule retry_loop_token_run) simp

theorem RetryWithToken_token_discipline_witness:
  "trace (snd (RetryWithToken 3 stale_policy stale_twice)) =
     [Fetched 0 (Inr ''t''), Invoked 0 ''t'', Waited 0 2,
      Fetched 1 (Inr ''tt''), Invoked 1 ''tt'', Waited 1 2,
      Fetched 2 (Inr ''ttt''), Invoked 2 ''ttt''] \<and>
   token_run None (trace (snd (RetryWithToken 3 stale_policy stale_twice))) = Some None"
  using RetryWithToken_token_discipline [where fuel = 3 and pol = stale_policy and w = stale_twice]
  by (simp add: retry_eval stale_twice_def)

end
